theory Spec2Isabelle
  imports Main "HOL-Library.Word"
begin

section \<open>Machine types and failures\<close>

text \<open>
  The loops of \<^verbatim>\<open>serial\<close> and \<^verbatim>\<open>parallel\<close> count with \<^verbatim>\<open>uint i\<close>, a 32-bit
  unsigned integer that wraps around on \<^verbatim>\<open>i++\<close>; \<^verbatim>\<open>gen_vec_string\<close> counts with
  \<^verbatim>\<open>int i\<close>, a 32-bit two's complement integer (read with \<open>sint\<close>). A vector's size is
  a \<^verbatim>\<open>size_t\<close>: in \<^verbatim>\<open>i < x_vec.size() + 2\<close> the counter is converted to \<^verbatim>\<open>size_t\<close>,
  so the comparison is one of natural numbers. The model takes \<^verbatim>\<open>size_t\<close> to be wider
  than \<^verbatim>\<open>uint\<close>, as it is on 64-bit Linux: a vector may have \<open>2 ^ 32\<close> elements or more,
  and the sum \<^verbatim>\<open>x_vec.size() + 2\<close> does not overflow.
\<close>

type_synonym u32 = "32 word"
type_synonym i32 = "32 word"

text \<open>
  \<^verbatim>\<open>v[i]\<close> on a \<^verbatim>\<open>std::vector\<close> does not check its index: reading beyond the end is
  undefined behaviour. The model makes it a failure of the run.
\<close>

datatype error = Out_of_bounds

definition vec_at :: "'a list \<Rightarrow> nat \<Rightarrow> error + 'a" where
  "vec_at v k = (if k < length v then Inr (v ! k) else Inl Out_of_bounds)"

section \<open>common.hpp\<close>

definition no_data :: string where
  "no_data = ''--''"

text \<open>
  The dummy processing functions. Their \<^verbatim>\<open>sleep_for\<close> only takes time; it is not part
  of the model.
\<close>

definition F :: "string \<Rightarrow> string" where
  "F x = ''F('' @ x @ '')''"

definition G :: "string \<Rightarrow> string" where
  "G x = ''G('' @ x @ '')''"

definition H :: "string \<Rightarrow> string" where
  "H x = ''H('' @ x @ '')''"

definition sum_str :: "string \<Rightarrow> string \<Rightarrow> string" where
  "sum_str x y = x @ '' + '' @ y"

text \<open>
  \<^verbatim>\<open>std::to_string\<close> of an integer: its decimal digits, after a minus sign when it is
  negative. The function takes the integer's value, so it serves the \<^verbatim>\<open>int\<close> and the
  \<^verbatim>\<open>unsigned\<close> overload.
\<close>

definition digit :: "nat \<Rightarrow> char" where
  "digit d = ''0123456789'' ! d"

fun digits :: "nat \<Rightarrow> string" where
  "digits n = (if n < 10 then [digit n] else digits (n div 10) @ [digit (n mod 10)])"

declare digits.simps [simp del]

definition to_string :: "int \<Rightarrow> string" where
  "to_string k = (if k < 0 then CHR ''-'' # digits (nat (- k)) else digits (nat k))"

text \<open>
  \<^verbatim>\<open>for (int i=0; i<n; i++) vec.push_back(prefix + "_" + to_string(i));\<close>
  The comparison is signed. The counter stays below \<open>n\<close>, so \<^verbatim>\<open>i++\<close> never overflows
  and the loop always ends.
\<close>

function gen_loop :: "i32 \<Rightarrow> string \<Rightarrow> i32 \<Rightarrow> string list \<Rightarrow> string list" where
  "gen_loop n prefix i vec =
     (if i <s n
      then gen_loop n prefix (i + 1) (vec @ [prefix @ ''_'' @ to_string (sint i)])
      else vec)"
  by pat_completeness auto

termination gen_loop
proof (relation "measure (\<lambda>(n, prefix, i, vec). nat (sint n - sint i))")
  show "wf (measure (\<lambda>(n, prefix, i, vec). nat (sint n - sint i)))"
    by simp
next
  fix n :: i32 and prefix :: string and i :: i32 and vec :: "string list"
  assume "i <s n"
  then have less: "sint i < sint n"
    by (simp add: word_sless_alt)
  moreover have "sint n < 2 ^ 31"
    using sint_lt [of n] by simp
  moreover have "- (2 ^ 31) \<le> sint i"
    using sint_ge [of i] by simp
  ultimately have "signed_take_bit 31 (sint i + 1) = sint i + 1"
    by (intro signed_take_bit_int_eq_self) auto
  then have "sint (i + 1) = sint i + 1"
    by (simp add: sint_word_add)
  with less
  show "((n, prefix, i + 1, vec @ [prefix @ ''_'' @ to_string (sint i)]), (n, prefix, i, vec))
          \<in> measure (\<lambda>(n, prefix, i, vec). nat (sint n - sint i))"
    by simp
qed

declare gen_loop.simps [simp del]

definition gen_vec_string :: "i32 \<Rightarrow> string \<Rightarrow> string list" where
  "gen_vec_string n prefix = gen_loop n prefix 0 []"

section \<open>What a run does: the store of the buffers and the events of each round\<close>

text \<open>
  The buffers are string variables of \<^verbatim>\<open>parallel\<close>, declared before the loop and shared
  by its iterations: \<^verbatim>\<open>F_buffer\<close> and \<^verbatim>\<open>G_buffer\<close> in main2.cpp, \<^verbatim>\<open>F_buffer\<close> in
  main3.cpp, \<^verbatim>\<open>F_G_sum_buffer\<close> in main4.cpp.
\<close>

datatype var = F_buffer | G_buffer | F_G_sum_buffer

datatype fn = F_fn | G_fn | H_fn

fun unary :: "fn \<Rightarrow> string \<Rightarrow> string" where
  "unary F_fn x = F x"
| "unary G_fn x = G x"
| "unary H_fn x = H x"

text \<open>
  Everything an iteration does to the world outside its local variables is an event: a
  buffer is read or assigned, a function is handed to \<^verbatim>\<open>std::async\<close> with its
  argument, a future is joined with \<^verbatim>\<open>get()\<close> and gives its value, a function is called
  directly (with its arguments and its result), a line goes to \<^verbatim>\<open>cout\<close>.
\<close>

datatype event =
    Read var string
  | Write var string
  | Async fn string
  | Get fn string
  | Call fn string string
  | Call_sum string string string
  | Print string

text \<open>
  The state of a run between two iterations: the buffers, and the events of every
  iteration so far, one list for each. The state inside an iteration: the buffers and the
  events of this iteration so far.
\<close>

record run =
  store :: "var \<Rightarrow> string"
  trace :: "event list list"

record frame =
  mem :: "var \<Rightarrow> string"
  log :: "event list"

definition load :: "var \<Rightarrow> frame \<Rightarrow> string \<times> frame" where
  "load b m = (mem m b, m\<lparr>log := log m @ [Read b (mem m b)]\<rparr>)"

definition assign :: "var \<Rightarrow> string \<Rightarrow> frame \<Rightarrow> frame" where
  "assign b v m = m\<lparr>mem := (mem m)(b := v), log := log m @ [Write b v]\<rparr>"

text \<open>
  \<^verbatim>\<open>async(F, x_i)\<close> copies its argument when it is called and returns a future. The
  task only computes on its copy (and sleeps), so the value the future will give is
  fixed at the launch: the model's future is that value, and \<^verbatim>\<open>get()\<close> hands it over.
\<close>

definition async :: "fn \<Rightarrow> string \<Rightarrow> frame \<Rightarrow> string \<times> frame" where
  "async f x m = (unary f x, m\<lparr>log := log m @ [Async f x]\<rparr>)"

definition get :: "fn \<Rightarrow> string \<Rightarrow> frame \<Rightarrow> string \<times> frame" where
  "get f future m = (future, m\<lparr>log := log m @ [Get f future]\<rparr>)"

definition call :: "fn \<Rightarrow> string \<Rightarrow> frame \<Rightarrow> string \<times> frame" where
  "call f x m = (unary f x, m\<lparr>log := log m @ [Call f x (unary f x)]\<rparr>)"

definition call_sum :: "string \<Rightarrow> string \<Rightarrow> frame \<Rightarrow> string \<times> frame" where
  "call_sum x y m = (sum_str x y, m\<lparr>log := log m @ [Call_sum x y (sum_str x y)]\<rparr>)"

definition cout :: "string \<Rightarrow> frame \<Rightarrow> frame" where
  "cout line m = m\<lparr>log := log m @ [Print line]\<rparr>"

text \<open>
  Before the loop: the buffers the function declares, each holding \<^verbatim>\<open>no_data\<close>
  (\<^verbatim>\<open>string F_buffer(no_data);\<close>), and no event yet.
\<close>

definition start :: "var list \<Rightarrow> run" where
  "start bs = \<lparr>store = (\<lambda>b. if b \<in> set bs then no_data else []), trace = []\<rparr>"

text \<open>An iteration starts with the buffers as they are and ends with its list of events.\<close>

definition enter :: "run \<Rightarrow> frame" where
  "enter s = \<lparr>mem = store s, log = []\<rparr>"

definition leave :: "run \<Rightarrow> frame \<Rightarrow> run" where
  "leave s m = \<lparr>store = mem m, trace = trace s @ [log m]\<rparr>"

section \<open>The counting loop\<close>

text \<open>
  \<^verbatim>\<open>for (uint i = ...; i < n; i++) body\<close>, where \<open>n\<close> is a \<^verbatim>\<open>size_t\<close>. The counter
  wraps around at \<open>2 ^ 32\<close>, so the loop need not end: not returning is the value
  \<open>None\<close>. A body that fails ends the run with its error.
\<close>

partial_function (option) for_uint ::
  "nat \<Rightarrow> (u32 \<Rightarrow> 's \<Rightarrow> error + 's) \<Rightarrow> u32 \<Rightarrow> 's \<Rightarrow> (error + 's) option" where
  "for_uint n body i s =
     (if unat i < n
      then (case body i s of Inl e \<Rightarrow> Some (Inl e) | Inr s' \<Rightarrow> for_uint n body (i + 1) s')
      else Some (Inr s))"

section \<open>main2.cpp: y[i] = H(G(F(x[i])))\<close>

text \<open>
  One iteration of \<^verbatim>\<open>serial\<close>: \<^verbatim>\<open>string x_i = x_vec[i]; string y_i = H(G(F(x_i)));\<close>
  and the line to \<^verbatim>\<open>cout\<close>. The heading and the timer's line, printed outside the
  loop, are left out of the model (the timer reads the clock).
\<close>

definition serial2_body :: "string list \<Rightarrow> u32 \<Rightarrow> run \<Rightarrow> error + run" where
  "serial2_body x_vec i s =
     (case vec_at x_vec (unat i) of
        Inl e \<Rightarrow> Inl e
      | Inr x_i \<Rightarrow>
          (let m = enter s;
               (F_x, m) = call F_fn x_i m;
               (G_F_x, m) = call G_fn F_x m;
               (y_i, m) = call H_fn G_F_x m;
               m = cout (''Step '' @ to_string (uint i) @ '':  Thread 1: '' @ y_i) m
           in Inr (leave s m)))"

definition serial2 :: "string list \<Rightarrow> (error + run) option" where
  "serial2 x_vec =
     for_uint (length x_vec) (serial2_body x_vec) 0 (start [])"

text \<open>
  One iteration of \<^verbatim>\<open>parallel\<close>. \<^verbatim>\<open>async(G, F_buffer)\<close> reads the buffer (to copy it)
  and launches the task; the three \<^verbatim>\<open>get()\<close> come after the three launches, and the two
  assignments to the buffers after them.
\<close>

definition parallel2_body :: "string list \<Rightarrow> u32 \<Rightarrow> run \<Rightarrow> error + run" where
  "parallel2_body x_vec i s =
     (case (if unat i < length x_vec then vec_at x_vec (unat i) else Inr no_data) of
        Inl e \<Rightarrow> Inl e
      | Inr x_i \<Rightarrow>
          (let m = enter s;
               (F_future, m) = async F_fn x_i m;
               (F_buffer_copy, m) = load F_buffer m;
               (G_future, m) = async G_fn F_buffer_copy m;
               (G_buffer_copy, m) = load G_buffer m;
               (H_future, m) = async H_fn G_buffer_copy m;
               (F_result, m) = get F_fn F_future m;
               (G_result, m) = get G_fn G_future m;
               (H_result, m) = get H_fn H_future m;
               m = assign F_buffer F_result m;
               m = assign G_buffer G_result m;
               m = cout (''Step '' @ to_string (uint i) @ '':  Thread 1: '' @ F_result
                         @ ''  Thread 2: '' @ G_result @ ''  Thread 3: '' @ H_result) m
           in Inr (leave s m)))"

definition parallel2 :: "string list \<Rightarrow> (error + run) option" where
  "parallel2 x_vec =
     for_uint (length x_vec + 2) (parallel2_body x_vec) 0 (start [F_buffer, G_buffer])"

section \<open>main3.cpp: y[i] = F(x[i]) + G(F(x[i]))\<close>

definition serial3_body :: "string list \<Rightarrow> u32 \<Rightarrow> run \<Rightarrow> error + run" where
  "serial3_body x_vec i s =
     (case vec_at x_vec (unat i) of
        Inl e \<Rightarrow> Inl e
      | Inr x_i \<Rightarrow>
          (let m = enter s;
               (F_x_i, m) = call F_fn x_i m;
               (G_F_x_i, m) = call G_fn F_x_i m;
               (y_i, m) = call_sum F_x_i G_F_x_i m;
               m = cout (''Step '' @ to_string (uint i) @ '':  Thread 1: '' @ y_i) m
           in Inr (leave s m)))"

definition serial3 :: "string list \<Rightarrow> (error + run) option" where
  "serial3 x_vec =
     for_uint (length x_vec) (serial3_body x_vec) 0 (start [])"

text \<open>
  \<^verbatim>\<open>parallel\<close> reads \<^verbatim>\<open>F_buffer\<close> twice in an iteration: for \<^verbatim>\<open>async(G, F_buffer)\<close> and,
  after the two \<^verbatim>\<open>get()\<close>, for \<^verbatim>\<open>sum(F_buffer, G_result)\<close> in the main thread.
\<close>

definition parallel3_body :: "string list \<Rightarrow> u32 \<Rightarrow> run \<Rightarrow> error + run" where
  "parallel3_body x_vec i s =
     (case (if unat i < length x_vec then vec_at x_vec (unat i) else Inr no_data) of
        Inl e \<Rightarrow> Inl e
      | Inr x_i \<Rightarrow>
          (let m = enter s;
               (F_future, m) = async F_fn x_i m;
               (F_buffer_copy, m) = load F_buffer m;
               (G_future, m) = async G_fn F_buffer_copy m;
               (F_result, m) = get F_fn F_future m;
               (G_result, m) = get G_fn G_future m;
               (F_buffer_now, m) = load F_buffer m;
               (y, m) = call_sum F_buffer_now G_result m;
               m = assign F_buffer F_result m;
               m = cout (''Step '' @ to_string (uint i) @ '':  Thread 1: '' @ F_result
                         @ ''  Thread 2: '' @ G_result @ ''  Thread Main: '' @ y) m
           in Inr (leave s m)))"

definition parallel3 :: "string list \<Rightarrow> (error + run) option" where
  "parallel3 x_vec =
     for_uint (length x_vec + 1) (parallel3_body x_vec) 0 (start [F_buffer])"

section \<open>main4.cpp: y[i] = H(F(x[i]) + G(z[i]))\<close>

text \<open>
  \<^verbatim>\<open>serial\<close> counts up to \<^verbatim>\<open>x_vec.size()\<close> and reads \<^verbatim>\<open>x_vec[i]\<close> and \<^verbatim>\<open>z_vec[i]\<close>.
  (C++ leaves the order of \<^verbatim>\<open>F(x_i)\<close> and \<^verbatim>\<open>G(z_i)\<close> open; the model calls \<open>F\<close>
  first.)
\<close>

definition serial4_body :: "string list \<Rightarrow> string list \<Rightarrow> u32 \<Rightarrow> run \<Rightarrow> error + run" where
  "serial4_body x_vec z_vec i s =
     (case vec_at x_vec (unat i) of
        Inl e \<Rightarrow> Inl e
      | Inr x_i \<Rightarrow>
          (case vec_at z_vec (unat i) of
             Inl e \<Rightarrow> Inl e
           | Inr z_i \<Rightarrow>
               (let m = enter s;
                    (F_x, m) = call F_fn x_i m;
                    (G_z, m) = call G_fn z_i m;
                    (F_G_sum, m) = call_sum F_x G_z m;
                    (y_i, m) = call H_fn F_G_sum m;
                    m = cout (''Step '' @ to_string (uint i) @ '':  Thread 1: '' @ y_i) m
                in Inr (leave s m))))"

definition serial4 :: "string list \<Rightarrow> string list \<Rightarrow> (error + run) option" where
  "serial4 x_vec z_vec =
     for_uint (length x_vec) (serial4_body x_vec z_vec) 0 (start [])"

definition parallel4_body :: "string list \<Rightarrow> string list \<Rightarrow> u32 \<Rightarrow> run \<Rightarrow> error + run" where
  "parallel4_body x_vec z_vec i s =
     (case (if unat i < length x_vec then vec_at x_vec (unat i) else Inr no_data) of
        Inl e \<Rightarrow> Inl e
      | Inr x_i \<Rightarrow>
          (case (if unat i < length z_vec then vec_at z_vec (unat i) else Inr no_data) of
             Inl e \<Rightarrow> Inl e
           | Inr z_i \<Rightarrow>
               (let m = enter s;
                    (F_future, m) = async F_fn x_i m;
                    (G_future, m) = async G_fn z_i m;
                    (F_G_sum_buffer_copy, m) = load F_G_sum_buffer m;
                    (H_future, m) = async H_fn F_G_sum_buffer_copy m;
                    (F_result, m) = get F_fn F_future m;
                    (G_result, m) = get G_fn G_future m;
                    (H_result, m) = get H_fn H_future m;
                    (F_G_sum, m) = call_sum F_result G_result m;
                    m = assign F_G_sum_buffer F_G_sum m;
                    m = cout (''Step '' @ to_string (uint i) @ '':  Thread 1: '' @ F_result
                              @ ''  Thread 2: '' @ G_result @ ''  Thread 3: '' @ H_result) m
                in Inr (leave s m))))"

definition parallel4 :: "string list \<Rightarrow> string list \<Rightarrow> (error + run) option" where
  "parallel4 x_vec z_vec =
     for_uint (length x_vec + 1) (parallel4_body x_vec z_vec) 0 (start [F_G_sum_buffer])"

section \<open>Reading a run\<close>

text \<open>
  A run returns when its loop ends without a failure; its rounds are the lists of events
  of its iterations, in order.
\<close>

definition returns :: "(error + run) option \<Rightarrow> bool" where
  "returns r = (case r of Some (Inr s) \<Rightarrow> True | _ \<Rightarrow> False)"

definition rounds :: "(error + run) option \<Rightarrow> event list list" where
  "rounds r = (case r of Some (Inr s) \<Rightarrow> trace s | _ \<Rightarrow> [])"

text \<open>
  What a round did, in the order it did it: the values read from a buffer, the values
  assigned to it, the arguments a function was launched with, the values its future gave,
  the results of its direct calls, the lines printed.
\<close>

definition reads :: "var \<Rightarrow> event list \<Rightarrow> string list" where
  "reads b es = [v. Read c v \<leftarrow> es, c = b]"

definition writes :: "var \<Rightarrow> event list \<Rightarrow> string list" where
  "writes b es = [v. Write c v \<leftarrow> es, c = b]"

definition launched :: "fn \<Rightarrow> event list \<Rightarrow> string list" where
  "launched f es = [x. Async g x \<leftarrow> es, g = f]"

definition got :: "fn \<Rightarrow> event list \<Rightarrow> string list" where
  "got f es = [v. Get g v \<leftarrow> es, g = f]"

definition called :: "fn \<Rightarrow> event list \<Rightarrow> string list" where
  "called f es = [v. Call g x v \<leftarrow> es, g = f]"

definition printed :: "event list \<Rightarrow> string list" where
  "printed es = [l. Print l \<leftarrow> es]"

definition summed :: "event list \<Rightarrow> string list" where
  "summed es = [v. Call_sum x y v \<leftarrow> es]"

text \<open>
  A value built from \<^verbatim>\<open>no_data\<close> alone: the sentinel itself, or what \<open>F\<close>, \<open>G\<close>, \<open>H\<close>
  and the sum make of such values.
\<close>

inductive sentinel_only :: "string \<Rightarrow> bool" where
  sentinel: "sentinel_only no_data"
| through_F: "sentinel_only v \<Longrightarrow> sentinel_only (F v)"
| through_G: "sentinel_only v \<Longrightarrow> sentinel_only (G v)"
| through_H: "sentinel_only v \<Longrightarrow> sentinel_only (H v)"
| through_sum: "sentinel_only v \<Longrightarrow> sentinel_only w \<Longrightarrow> sentinel_only (sum_str v w)"

code_pred sentinel_only .

text \<open>
  The order inside a round: from the first assignment to a buffer on, the round launches
  no task, joins no future and reads no buffer.
\<close>

fun is_write :: "event \<Rightarrow> bool" where
  "is_write (Write b v) = True"
| "is_write e = False"

fun is_task_or_read :: "event \<Rightarrow> bool" where
  "is_task_or_read (Async f x) = True"
| "is_task_or_read (Get f v) = True"
| "is_task_or_read (Read b v) = True"
| "is_task_or_read e = False"

definition writes_come_last :: "event list \<Rightarrow> bool" where
  "writes_come_last es =
     list_all (\<lambda>e. \<not> is_task_or_read e) (dropWhile (\<lambda>e. \<not> is_write e) es)"

section \<open>The loop as a recursion over its indices\<close>

text \<open>
  The loop body run over a list of indices, stopping at the first failure. A counting loop
  whose bound the counter can reach is this recursion over \<open>0, 1, \<dots>, n - 1\<close>.
\<close>

fun iterate :: "('i \<Rightarrow> 's \<Rightarrow> error + 's) \<Rightarrow> 'i list \<Rightarrow> 's \<Rightarrow> error + 's" where
  "iterate body [] s = Inr s"
| "iterate body (i # is) s =
     (case body i s of Inl e \<Rightarrow> Inl e | Inr s' \<Rightarrow> iterate body is s')"

section \<open>What the rounds are\<close>

text \<open>
  The value an input stream supplies in round \<open>r\<close>: its element \<open>r\<close>, and \<^verbatim>\<open>no_data\<close>
  beyond its end.
\<close>

definition input_at :: "string list \<Rightarrow> nat \<Rightarrow> string" where
  "input_at v r = (if r < length v then v ! r else no_data)"

text \<open>
  The contents of the buffers before round \<open>r\<close>, and the events of round \<open>r\<close> of each
  of the six loops, written out. The lemmas below show that the loops produce them.
\<close>

fun F_buffer_before :: "string list \<Rightarrow> nat \<Rightarrow> string" where
  "F_buffer_before x_vec 0 = no_data"
| "F_buffer_before x_vec (Suc r) = F (input_at x_vec r)"

fun G_buffer_before :: "string list \<Rightarrow> nat \<Rightarrow> string" where
  "G_buffer_before x_vec 0 = no_data"
| "G_buffer_before x_vec (Suc r) = G (F_buffer_before x_vec r)"

fun F_G_sum_buffer_before :: "string list \<Rightarrow> string list \<Rightarrow> nat \<Rightarrow> string" where
  "F_G_sum_buffer_before x_vec z_vec 0 = no_data"
| "F_G_sum_buffer_before x_vec z_vec (Suc r) =
     sum_str (F (input_at x_vec r)) (G (input_at z_vec r))"

definition step_line :: "nat \<Rightarrow> string" where
  "step_line r = ''Step '' @ to_string (int r) @ '':  Thread 1: ''"

definition serial2_round :: "string list \<Rightarrow> nat \<Rightarrow> event list" where
  "serial2_round x_vec r =
     (let x = x_vec ! r in
      [Call F_fn x (F x), Call G_fn (F x) (G (F x)), Call H_fn (G (F x)) (H (G (F x))),
       Print (step_line r @ H (G (F x)))])"

definition parallel2_round :: "string list \<Rightarrow> nat \<Rightarrow> event list" where
  "parallel2_round x_vec r =
     (let x = input_at x_vec r; fb = F_buffer_before x_vec r; gb = G_buffer_before x_vec r in
      [Async F_fn x, Read F_buffer fb, Async G_fn fb, Read G_buffer gb, Async H_fn gb,
       Get F_fn (F x), Get G_fn (G fb), Get H_fn (H gb),
       Write F_buffer (F x), Write G_buffer (G fb),
       Print (step_line r @ F x @ ''  Thread 2: '' @ G fb @ ''  Thread 3: '' @ H gb)])"

definition serial3_round :: "string list \<Rightarrow> nat \<Rightarrow> event list" where
  "serial3_round x_vec r =
     (let x = x_vec ! r in
      [Call F_fn x (F x), Call G_fn (F x) (G (F x)),
       Call_sum (F x) (G (F x)) (sum_str (F x) (G (F x))),
       Print (step_line r @ sum_str (F x) (G (F x)))])"

definition parallel3_round :: "string list \<Rightarrow> nat \<Rightarrow> event list" where
  "parallel3_round x_vec r =
     (let x = input_at x_vec r; fb = F_buffer_before x_vec r in
      [Async F_fn x, Read F_buffer fb, Async G_fn fb,
       Get F_fn (F x), Get G_fn (G fb),
       Read F_buffer fb, Call_sum fb (G fb) (sum_str fb (G fb)),
       Write F_buffer (F x),
       Print (step_line r @ F x @ ''  Thread 2: '' @ G fb
              @ ''  Thread Main: '' @ sum_str fb (G fb))])"

definition serial4_round :: "string list \<Rightarrow> string list \<Rightarrow> nat \<Rightarrow> event list" where
  "serial4_round x_vec z_vec r =
     (let x = x_vec ! r; z = z_vec ! r in
      [Call F_fn x (F x), Call G_fn z (G z), Call_sum (F x) (G z) (sum_str (F x) (G z)),
       Call H_fn (sum_str (F x) (G z)) (H (sum_str (F x) (G z))),
       Print (step_line r @ H (sum_str (F x) (G z)))])"

definition parallel4_round :: "string list \<Rightarrow> string list \<Rightarrow> nat \<Rightarrow> event list" where
  "parallel4_round x_vec z_vec r =
     (let x = input_at x_vec r; z = input_at z_vec r;
          sb = F_G_sum_buffer_before x_vec z_vec r in
      [Async F_fn x, Async G_fn z, Read F_G_sum_buffer sb, Async H_fn sb,
       Get F_fn (F x), Get G_fn (G z), Get H_fn (H sb),
       Call_sum (F x) (G z) (sum_str (F x) (G z)),
       Write F_G_sum_buffer (sum_str (F x) (G z)),
       Print (step_line r @ F x @ ''  Thread 2: '' @ G z @ ''  Thread 3: '' @ H sb)])"

section \<open>Properties of the counting loop\<close>

lemma unat_succ: "unat i < n \<Longrightarrow> n < 2 ^ 32 \<Longrightarrow> unat (i + 1 :: u32) = Suc (unat i)"
  by (simp add: unat_word_ariths)

lemma unat_of_nat_u32: "k < 2 ^ 32 \<Longrightarrow> unat (word_of_nat k :: u32) = k"
  by (simp add: unat_of_nat)

text \<open>Below \<open>2 ^ 32\<close> the loop ends, after one iteration for each index.\<close>

lemma for_uint_iterate:
  "n < 2 ^ 32 \<Longrightarrow> unat i \<le> n \<Longrightarrow>
   for_uint n body i s = Some (iterate body (map word_of_nat [unat i..<n]) s)"
proof (induction "n - unat i" arbitrary: i s)
  case 0
  then have "\<not> unat i < n" by simp
  with 0 show ?case
    by (subst for_uint.simps) simp
next
  case (Suc k)
  then have less: "unat i < n" by simp
  with Suc.prems have succ: "unat (i + 1) = Suc (unat i)"
    by (simp add: unat_succ)
  have "k = n - unat (i + 1)" "unat (i + 1) \<le> n"
    using Suc.hyps(2) less succ by simp_all
  with Suc.hyps(1) Suc.prems(1)
  have IH: "for_uint n body (i + 1) s' =
        Some (iterate body (map word_of_nat [unat (i + 1)..<n]) s')" for s'
    by blast
  have upt: "[unat i..<n] = unat i # [unat (i + 1)..<n]"
    using less succ by (simp add: upt_conv_Cons)
  show ?case
    by (subst for_uint.simps) (simp add: less upt IH split: sum.splits)
qed

text \<open>
  From \<open>2 ^ 32\<close> on the counter wraps around before it reaches the bound: the loop can
  only end by a failure of its body.
\<close>

lemma for_uint_wraps:
  assumes run: "for_uint n body i s = Some r" and big: "2 ^ 32 \<le> n"
  shows "\<exists>e. r = Inl e"
proof -
  have "2 ^ 32 \<le> n \<longrightarrow> (\<exists>e. r = Inl e)"
  proof (rule for_uint.raw_induct
      [where P = "\<lambda>n body i s r. 2 ^ 32 \<le> n \<longrightarrow> (\<exists>e. r = Inl e)", OF _ run])
    fix f :: "nat \<Rightarrow> (u32 \<Rightarrow> 'a \<Rightarrow> error + 'a) \<Rightarrow> u32 \<Rightarrow> 'a \<Rightarrow> (error + 'a) option"
      and n body i s r
    assume IH: "\<And>n body i s r. f n body i s = Some r \<Longrightarrow> 2 ^ 32 \<le> n \<longrightarrow> (\<exists>e. r = Inl e)"
      and step: "(if unat i < n
          then case body i s of Inl e \<Rightarrow> Some (Inl e) | Inr s' \<Rightarrow> f n body (i + 1) s'
          else Some (Inr s)) = Some r"
    show "2 ^ 32 \<le> n \<longrightarrow> (\<exists>e. r = Inl e)"
    proof
      assume n: "2 ^ 32 \<le> n"
      have "unat i < n"
        using unsigned_less [of i, where 'a = nat] n by simp
      with step IH n show "\<exists>e. r = Inl e"
        by (cases "body i s") auto
    qed
  qed
  with big show ?thesis by simp
qed

lemma iterate_snoc:
  "iterate body (xs @ [x]) s =
     (case iterate body xs s of Inl e \<Rightarrow> Inl e | Inr s' \<Rightarrow> body x s')"
  by (induction xs arbitrary: s) (auto split: sum.splits)

lemma start_simps [simp]:
  "trace (start bs) = []" "store (start bs) b = (if b \<in> set bs then no_data else [])"
  by (simp_all add: start_def)

lemmas ops = enter_def leave_def load_def assign_def async_def get_def call_def call_sum_def
  cout_def vec_at_def

section \<open>The rounds of the six loops\<close>

text \<open>
  A loop whose body never fails, keeps an invariant of the buffers and appends the events
  of round \<open>r\<close> at index \<open>r\<close>, returns with exactly these rounds.
\<close>

lemma iterate_invariant:
  assumes step: "\<And>r s. r < k \<Longrightarrow> I r s \<Longrightarrow>
      \<exists>s'. body (word_of_nat r) s = Inr s' \<and> I (Suc r) s' \<and> trace s' = trace s @ [rnd r]"
    and init: "I 0 s0" "trace s0 = []"
  shows "j \<le> k \<Longrightarrow>
     \<exists>s. iterate body (map word_of_nat [0..<j]) s0 = Inr s \<and> I j s \<and> trace s = map rnd [0..<j]"
proof (induction j)
  case 0
  with init show ?case by simp
next
  case (Suc j)
  then obtain s where s: "iterate body (map word_of_nat [0..<j]) s0 = Inr s" "I j s"
      "trace s = map rnd [0..<j]"
    by auto
  from Suc.prems have "j < k" by simp
  from step [OF this s(2)] s(1,3) show ?case
    by (auto simp: iterate_snoc)
qed

lemma for_uint_rounds:
  fixes body :: "u32 \<Rightarrow> run \<Rightarrow> error + run"
  assumes bound: "n < 2 ^ 32"
    and step: "\<And>r s. r < n \<Longrightarrow> I r s \<Longrightarrow>
      \<exists>s'. body (word_of_nat r) s = Inr s' \<and> I (Suc r) s' \<and> trace s' = trace s @ [rnd r]"
    and init: "I 0 s0" "trace s0 = []"
  shows "returns (for_uint n body 0 s0) \<and> rounds (for_uint n body 0 s0) = map rnd [0..<n]"
proof -
  from iterate_invariant [of n I body rnd s0 n, OF step init]
  obtain s where "iterate body (map word_of_nat [0..<n]) s0 = Inr s" "trace s = map rnd [0..<n]"
    by auto
  with bound show ?thesis
    by (simp add: for_uint_iterate returns_def rounds_def)
qed

lemma uint_of_nat_u32: "r < 2 ^ 32 \<Longrightarrow> uint (word_of_nat r :: u32) = int r"
  by (simp add: uint_nat unat_of_nat_u32)

lemmas body_simps = ops unat_of_nat_u32 uint_of_nat_u32 step_line_def input_at_def Let_def

lemma serial2_run:
  assumes "length x_vec < 2 ^ 32"
  shows "returns (serial2 x_vec) \<and> rounds (serial2 x_vec) = map (serial2_round x_vec) [0..<length x_vec]"
  unfolding serial2_def
proof (rule for_uint_rounds [where I = "\<lambda>r s. True"])
  fix r s assume "r < length x_vec"
  with assms show "\<exists>s'. serial2_body x_vec (word_of_nat r) s = Inr s' \<and> True
      \<and> trace s' = trace s @ [serial2_round x_vec r]"
    by (simp add: serial2_body_def serial2_round_def body_simps)
qed (use assms in simp_all)

lemma parallel2_run:
  assumes "length x_vec + 2 < 2 ^ 32"
  shows "returns (parallel2 x_vec)
     \<and> rounds (parallel2 x_vec) = map (parallel2_round x_vec) [0..<length x_vec + 2]"
  unfolding parallel2_def
proof (rule for_uint_rounds [where I = "\<lambda>r s. store s F_buffer = F_buffer_before x_vec r
      \<and> store s G_buffer = G_buffer_before x_vec r"])
  fix r and s :: run assume "r < length x_vec + 2"
    and "store s F_buffer = F_buffer_before x_vec r \<and> store s G_buffer = G_buffer_before x_vec r"
  with assms show "\<exists>s'. parallel2_body x_vec (word_of_nat r) s = Inr s'
      \<and> (store s' F_buffer = F_buffer_before x_vec (Suc r)
         \<and> store s' G_buffer = G_buffer_before x_vec (Suc r))
      \<and> trace s' = trace s @ [parallel2_round x_vec r]"
    by (simp add: parallel2_body_def parallel2_round_def body_simps)
qed (use assms in simp_all)

lemma serial3_run:
  assumes "length x_vec < 2 ^ 32"
  shows "returns (serial3 x_vec) \<and> rounds (serial3 x_vec) = map (serial3_round x_vec) [0..<length x_vec]"
  unfolding serial3_def
proof (rule for_uint_rounds [where I = "\<lambda>r s. True"])
  fix r s assume "r < length x_vec"
  with assms show "\<exists>s'. serial3_body x_vec (word_of_nat r) s = Inr s' \<and> True
      \<and> trace s' = trace s @ [serial3_round x_vec r]"
    by (simp add: serial3_body_def serial3_round_def body_simps)
qed (use assms in simp_all)

lemma parallel3_run:
  assumes "length x_vec + 1 < 2 ^ 32"
  shows "returns (parallel3 x_vec)
     \<and> rounds (parallel3 x_vec) = map (parallel3_round x_vec) [0..<length x_vec + 1]"
  unfolding parallel3_def
proof (rule for_uint_rounds [where I = "\<lambda>r s. store s F_buffer = F_buffer_before x_vec r"])
  fix r and s :: run assume "r < length x_vec + 1" and "store s F_buffer = F_buffer_before x_vec r"
  with assms show "\<exists>s'. parallel3_body x_vec (word_of_nat r) s = Inr s'
      \<and> store s' F_buffer = F_buffer_before x_vec (Suc r)
      \<and> trace s' = trace s @ [parallel3_round x_vec r]"
    by (simp add: parallel3_body_def parallel3_round_def body_simps)
qed (use assms in simp_all)

lemma serial4_run:
  assumes "length x_vec < 2 ^ 32" and "length x_vec \<le> length z_vec"
  shows "returns (serial4 x_vec z_vec)
     \<and> rounds (serial4 x_vec z_vec) = map (serial4_round x_vec z_vec) [0..<length x_vec]"
  unfolding serial4_def
proof (rule for_uint_rounds [where I = "\<lambda>r s. True"])
  fix r s assume "r < length x_vec"
  with assms show "\<exists>s'. serial4_body x_vec z_vec (word_of_nat r) s = Inr s' \<and> True
      \<and> trace s' = trace s @ [serial4_round x_vec z_vec r]"
    by (simp add: serial4_body_def serial4_round_def body_simps)
qed (use assms in simp_all)

lemma parallel4_run:
  assumes "length x_vec + 1 < 2 ^ 32"
  shows "returns (parallel4 x_vec z_vec)
     \<and> rounds (parallel4 x_vec z_vec)
         = map (parallel4_round x_vec z_vec) [0..<length x_vec + 1]"
  unfolding parallel4_def
proof (rule for_uint_rounds
    [where I = "\<lambda>r s. store s F_G_sum_buffer = F_G_sum_buffer_before x_vec z_vec r"])
  fix r and s :: run assume "r < length x_vec + 1"
    and "store s F_G_sum_buffer = F_G_sum_buffer_before x_vec z_vec r"
  with assms show "\<exists>s'. parallel4_body x_vec z_vec (word_of_nat r) s = Inr s'
      \<and> store s' F_G_sum_buffer = F_G_sum_buffer_before x_vec z_vec (Suc r)
      \<and> trace s' = trace s @ [parallel4_round x_vec z_vec r]"
    by (simp add: parallel4_body_def parallel4_round_def body_simps)
qed (use assms in simp_all)

text \<open>
  Beyond the range of the counter, a loop whose body never fails never ends: the parallel
  loops do not return for a vector of \<open>2 ^ 32 - 2\<close> (main2.cpp), \<open>2 ^ 32 - 1\<close>
  (main3.cpp, main4.cpp) or more elements. The claims below are proved for the vectors
  the counter can run through.
\<close>

lemma for_uint_never_ends:
  assumes total: "\<And>i s. \<exists>s'. body i s = Inr s'" and big: "2 ^ 32 \<le> n"
  shows "for_uint n body i s = None"
proof (cases "for_uint n body i s")
  case None
  then show ?thesis .
next
  case (Some r)
  from for_uint_wraps [OF Some big] obtain e where r: "r = Inl e" ..
  have "n' = n \<and> body' = body \<longrightarrow> (\<forall>e. r' \<noteq> Inl e)"
    if "for_uint n' body' i' s' = Some r'" for n' body' i' s' r'
  proof (rule for_uint.raw_induct
      [where P = "\<lambda>n' body' i' s' r'. n' = n \<and> body' = body \<longrightarrow> (\<forall>e. r' \<noteq> Inl e)", OF _ that])
    fix f :: "nat \<Rightarrow> (u32 \<Rightarrow> 'a \<Rightarrow> error + 'a) \<Rightarrow> u32 \<Rightarrow> 'a \<Rightarrow> (error + 'a) option"
      and n' body' i' s' r'
    assume IH: "\<And>n' body' i' s' r'. f n' body' i' s' = Some r' \<Longrightarrow>
        n' = n \<and> body' = body \<longrightarrow> (\<forall>e. r' \<noteq> Inl e)"
      and step: "(if unat i' < n'
          then case body' i' s' of Inl e \<Rightarrow> Some (Inl e) | Inr s'' \<Rightarrow> f n' body' (i' + 1) s''
          else Some (Inr s')) = Some r'"
    show "n' = n \<and> body' = body \<longrightarrow> (\<forall>e. r' \<noteq> Inl e)"
    proof
      assume eq: "n' = n \<and> body' = body"
      from total obtain s'' where "body i' s' = Inr s''" by blast
      with step IH eq show "\<forall>e. r' \<noteq> Inl e"
        by (auto split: if_splits)
    qed
  qed
  from this [OF Some] r show ?thesis by simp
qed

lemma parallel_bodies_total:
  "\<exists>s'. parallel2_body x_vec i s = Inr s'"
  "\<exists>s'. parallel3_body x_vec i s = Inr s'"
  "\<exists>s'. parallel4_body x_vec z_vec i s = Inr s'"
  by (simp_all add: parallel2_body_def parallel3_body_def parallel4_body_def ops Let_def)

lemma parallel_wraps:
  "2 ^ 32 \<le> length x_vec + 2 \<Longrightarrow> parallel2 x_vec = None"
  "2 ^ 32 \<le> length x_vec + 1 \<Longrightarrow> parallel3 x_vec = None"
  "2 ^ 32 \<le> length x_vec + 1 \<Longrightarrow> parallel4 x_vec z_vec = None"
  by (simp_all add: parallel2_def parallel3_def parallel4_def for_uint_never_ends
      parallel_bodies_total)

section \<open>gen_vec_string\<close>

lemma sint_succ:
  fixes i n :: i32
  assumes "sint i < sint n"
  shows "sint (i + 1) = sint i + 1"
proof -
  have "sint n < 2 ^ 31"
    using sint_lt [of n] by simp
  moreover have "- (2 ^ 31) \<le> sint i"
    using sint_ge [of i] by simp
  ultimately have "signed_take_bit 31 (sint i + 1) = sint i + 1"
    using assms by (intro signed_take_bit_int_eq_self) auto
  then show ?thesis
    by (simp add: sint_word_add)
qed

lemma gen_loop_eq:
  "0 \<le> sint i \<Longrightarrow> sint i \<le> sint n \<Longrightarrow>
   gen_loop n prefix i vec =
     vec @ map (\<lambda>k. prefix @ ''_'' @ to_string (int k)) [nat (sint i)..<nat (sint n)]"
proof (induction n prefix i vec rule: gen_loop.induct)
  case (1 n prefix i vec)
  show ?case
  proof (cases "i <s n")
    case True
    then have less: "sint i < sint n"
      by (simp add: word_sless_alt)
    then have succ: "sint (i + 1) = sint i + 1"
      by (rule sint_succ)
    have "nat (sint (i + 1)) = Suc (nat (sint i))"
      unfolding succ using "1.prems"(1) by arith
    moreover have "nat (sint i) < nat (sint n)"
      using less "1.prems"(1) by arith
    ultimately
    have upt: "[nat (sint i)..<nat (sint n)] = nat (sint i) # [nat (sint (i + 1))..<nat (sint n)]"
      by (simp only: upt_conv_Cons)
    have "gen_loop n prefix i vec =
        gen_loop n prefix (i + 1) (vec @ [prefix @ ''_'' @ to_string (sint i)])"
      using True by (subst gen_loop.simps) simp
    also have "\<dots> = (vec @ [prefix @ ''_'' @ to_string (sint i)])
        @ map (\<lambda>k. prefix @ ''_'' @ to_string (int k)) [nat (sint (i + 1))..<nat (sint n)]"
      using True less succ "1.prems" by (intro "1.IH") simp_all
    finally show ?thesis
      using "1.prems" by (simp add: upt)
  next
    case False
    then have "sint i = sint n"
      using "1.prems" by (simp add: word_sless_alt)
    with False show ?thesis
      by (subst gen_loop.simps) simp
  qed
qed

lemma gen_vec_string_eq:
  "0 \<le> sint n \<Longrightarrow>
   gen_vec_string n prefix = map (\<lambda>k. prefix @ ''_'' @ to_string (int k)) [0..<nat (sint n)]"
  using gen_loop_eq [of 0 n prefix "[]"] by (simp add: gen_vec_string_def)

text \<open>A negative \<open>n\<close> gives the empty vector: the loop's condition fails at once.\<close>

lemma gen_vec_string_negative: "sint n < 0 \<Longrightarrow> gen_vec_string n prefix = []"
  by (simp add: gen_vec_string_def gen_loop.simps word_sless_alt)

text \<open>
  Claim C10. For every \<open>n \<ge> 0\<close> (an \<^verbatim>\<open>int\<close>) and every prefix, \<^verbatim>\<open>gen_vec_string(n, prefix)\<close>
  returns a vector of exactly \<open>n\<close> strings, and its element at index \<open>i\<close> is the prefix,
  an underscore and the decimal digits of \<open>i\<close>, for every \<open>i\<close> from \<open>0\<close> to \<open>n - 1\<close>.
\<close>

theorem gen_vec_string_elements:
  assumes "0 \<le> sint n"
  shows "length (gen_vec_string n prefix) = nat (sint n)
     \<and> (\<forall>i < nat (sint n). gen_vec_string n prefix ! i = prefix @ ''_'' @ to_string (int i))"
  using assms by (simp add: gen_vec_string_eq)

theorem gen_vec_string_elements_witness:
  "(0::int) \<le> sint (3 :: i32) \<and> length (gen_vec_string 3 ''x'') = 3
     \<and> gen_vec_string 3 ''x'' ! 2 = ''x_2''"
proof -
  have n: "0 \<le> sint (3 :: i32)" by simp
  from gen_vec_string_elements [OF n, of "''x''"] show ?thesis
    by (simp add: to_string_def digits.simps digit_def)
qed

section \<open>The events of a round, by kind\<close>

lemmas extractors = reads_def writes_def launched_def got_def called_def printed_def Let_def

lemma parallel2_round_events:
  "launched F_fn (parallel2_round x_vec r) = [input_at x_vec r]"
  "launched G_fn (parallel2_round x_vec r) = [F_buffer_before x_vec r]"
  "launched H_fn (parallel2_round x_vec r) = [G_buffer_before x_vec r]"
  "got F_fn (parallel2_round x_vec r) = [F (input_at x_vec r)]"
  "got G_fn (parallel2_round x_vec r) = [G (F_buffer_before x_vec r)]"
  "got H_fn (parallel2_round x_vec r) = [H (G_buffer_before x_vec r)]"
  "reads F_buffer (parallel2_round x_vec r) = [F_buffer_before x_vec r]"
  "reads G_buffer (parallel2_round x_vec r) = [G_buffer_before x_vec r]"
  "writes F_buffer (parallel2_round x_vec r) = [F (input_at x_vec r)]"
  "writes G_buffer (parallel2_round x_vec r) = [G (F_buffer_before x_vec r)]"
  "printed (parallel2_round x_vec r) =
     [step_line r @ F (input_at x_vec r) @ ''  Thread 2: '' @ G (F_buffer_before x_vec r)
      @ ''  Thread 3: '' @ H (G_buffer_before x_vec r)]"
  by (simp_all add: parallel2_round_def extractors)

lemma serial2_round_events:
  "called F_fn (serial2_round x_vec r) = [F (x_vec ! r)]"
  "called G_fn (serial2_round x_vec r) = [G (F (x_vec ! r))]"
  "called H_fn (serial2_round x_vec r) = [H (G (F (x_vec ! r)))]"
  "printed (serial2_round x_vec r) = [step_line r @ H (G (F (x_vec ! r)))]"
  by (simp_all add: serial2_round_def extractors)

lemma parallel3_round_events:
  "launched F_fn (parallel3_round x_vec r) = [input_at x_vec r]"
  "launched G_fn (parallel3_round x_vec r) = [F_buffer_before x_vec r]"
  "got F_fn (parallel3_round x_vec r) = [F (input_at x_vec r)]"
  "got G_fn (parallel3_round x_vec r) = [G (F_buffer_before x_vec r)]"
  "reads F_buffer (parallel3_round x_vec r) = [F_buffer_before x_vec r, F_buffer_before x_vec r]"
  "writes F_buffer (parallel3_round x_vec r) = [F (input_at x_vec r)]"
  "printed (parallel3_round x_vec r) =
     [step_line r @ F (input_at x_vec r) @ ''  Thread 2: '' @ G (F_buffer_before x_vec r)
      @ ''  Thread Main: '' @ sum_str (F_buffer_before x_vec r) (G (F_buffer_before x_vec r))]"
  by (simp_all add: parallel3_round_def extractors)

lemma parallel4_round_events:
  "launched F_fn (parallel4_round x_vec z_vec r) = [input_at x_vec r]"
  "launched G_fn (parallel4_round x_vec z_vec r) = [input_at z_vec r]"
  "launched H_fn (parallel4_round x_vec z_vec r) = [F_G_sum_buffer_before x_vec z_vec r]"
  "got F_fn (parallel4_round x_vec z_vec r) = [F (input_at x_vec r)]"
  "got G_fn (parallel4_round x_vec z_vec r) = [G (input_at z_vec r)]"
  "got H_fn (parallel4_round x_vec z_vec r) = [H (F_G_sum_buffer_before x_vec z_vec r)]"
  "reads F_G_sum_buffer (parallel4_round x_vec z_vec r) = [F_G_sum_buffer_before x_vec z_vec r]"
  "writes F_G_sum_buffer (parallel4_round x_vec z_vec r)
     = [sum_str (F (input_at x_vec r)) (G (input_at z_vec r))]"
  "printed (parallel4_round x_vec z_vec r) =
     [step_line r @ F (input_at x_vec r) @ ''  Thread 2: '' @ G (input_at z_vec r)
      @ ''  Thread 3: '' @ H (F_G_sum_buffer_before x_vec z_vec r)]"
  by (simp_all add: parallel4_round_def extractors)

lemma serial4_round_events:
  "called H_fn (serial4_round x_vec z_vec r) = [H (sum_str (F (x_vec ! r)) (G (z_vec ! r)))]"
  "printed (serial4_round x_vec z_vec r)
     = [step_line r @ H (sum_str (F (x_vec ! r)) (G (z_vec ! r)))]"
  by (simp_all add: serial4_round_def extractors)

lemma parallel3_round_summed:
  "summed (parallel3_round x_vec r)
     = [sum_str (F_buffer_before x_vec r) (G (F_buffer_before x_vec r))]"
  by (simp add: parallel3_round_def summed_def Let_def)

lemma round_order:
  "writes_come_last (parallel2_round x_vec r)"
  "writes_come_last (parallel3_round x_vec r)"
  "writes_come_last (parallel4_round x_vec z_vec r)"
  by (simp_all add: writes_come_last_def parallel2_round_def parallel3_round_def
      parallel4_round_def Let_def)

lemma round_joins:
  "length (got f (parallel2_round x_vec r)) = length (launched f (parallel2_round x_vec r))"
  "length (got f (parallel3_round x_vec r)) = length (launched f (parallel3_round x_vec r))"
  "length (got f (parallel4_round x_vec z_vec r))
     = length (launched f (parallel4_round x_vec z_vec r))"
  by (cases f; simp add: parallel2_round_def parallel3_round_def parallel4_round_def
      got_def launched_def Let_def)+

lemma iterate_append:
  "iterate body (xs @ ys) s =
     (case iterate body xs s of Inl e \<Rightarrow> Inl e | Inr s' \<Rightarrow> iterate body ys s')"
  by (induction xs arbitrary: s) (auto split: sum.splits)

text \<open>The slip in \<^verbatim>\<open>serial\<close> of main4.cpp: with a shorter \<open>z_vec\<close> it reads beyond its end.\<close>

lemma serial4_out_of_bounds:
  assumes short: "length z_vec < length x_vec" and bound: "length x_vec < 2 ^ 32"
  shows "serial4 x_vec z_vec = Some (Inl Out_of_bounds)"
proof -
  let ?k = "length z_vec" and ?n = "length x_vec"
  have k: "?k < 2 ^ 32"
    using short bound by simp
  have "\<exists>s. iterate (serial4_body x_vec z_vec) (map word_of_nat [0..<?k]) (start []) = Inr s
      \<and> True \<and> trace s = map (serial4_round x_vec z_vec) [0..<?k]"
  proof (rule iterate_invariant [where k = ?k and I = "\<lambda>r s. True"])
    fix r s assume "r < ?k"
    with short k show "\<exists>s'. serial4_body x_vec z_vec (word_of_nat r) s = Inr s' \<and> True
        \<and> trace s' = trace s @ [serial4_round x_vec z_vec r]"
      by (simp add: serial4_body_def serial4_round_def body_simps)
  qed simp_all
  then obtain s where
    prefix: "iterate (serial4_body x_vec z_vec) (map word_of_nat [0..<?k]) (start []) = Inr s"
    by blast
  have fails: "serial4_body x_vec z_vec (word_of_nat ?k) s = Inl Out_of_bounds"
    using short k by (simp add: serial4_body_def body_simps)
  have "[0..<?n] = [0..<?k] @ ?k # [Suc ?k..<?n]"
    using short by (metis upt_conv_Cons le_add1 less_imp_add_positive upt_add_eq_append plus_nat.add_0)
  then have "iterate (serial4_body x_vec z_vec) (map word_of_nat [0..<?n]) (start [])
      = Inl Out_of_bounds"
    by (simp add: iterate_append prefix fails)
  with bound show ?thesis
    by (simp add: serial4_def for_uint_iterate)
qed

lemma upt_10: "[0..<10] = [0, 1, 2, 3, 4, 5, 6, 7, 8, 9]"
  by (simp add: upt_conv_Cons)

lemma upt_11: "[0..<11] = [0, 1, 2, 3, 4, 5, 6, 7, 8, 9, 10]"
  by (simp add: upt_conv_Cons)

lemma gen_vec_string_10:
  "gen_vec_string 10 [c] =
     [[c, CHR ''_'', CHR ''0''], [c, CHR ''_'', CHR ''1''], [c, CHR ''_'', CHR ''2''],
      [c, CHR ''_'', CHR ''3''], [c, CHR ''_'', CHR ''4''], [c, CHR ''_'', CHR ''5''],
      [c, CHR ''_'', CHR ''6''], [c, CHR ''_'', CHR ''7''], [c, CHR ''_'', CHR ''8''],
      [c, CHR ''_'', CHR ''9'']]"
  by (simp add: gen_vec_string_eq upt_10 to_string_def digits.simps digit_def)

lemma F_G_sum_buffer_before_if:
  "F_G_sum_buffer_before x_vec z_vec r =
     (if r = 0 then no_data
      else sum_str (F (input_at x_vec (r - 1))) (G (input_at z_vec (r - 1))))"
  by (cases r) simp_all

section \<open>The pipelines against their claims\<close>

text \<open>
  Claim C1. For every input vector (that the 32-bit counter can run through: its length
  plus two is below \<open>2 ^ 32\<close>), the parallel run of main2.cpp and the serial one both
  return, and for every index \<open>i\<close> of the vector the value that \<^verbatim>\<open>H_future.get()\<close> gives
  in round \<open>i + 2\<close> is \<open>H (G (F (x_vec ! i)))\<close>, the value the serial loop computes for
  \<open>y_i\<close> in its iteration \<open>i\<close>.
\<close>

theorem parallel2_agrees_with_serial2:
  assumes "length x_vec + 2 < 2 ^ 32"
  shows "returns (parallel2 x_vec) \<and> returns (serial2 x_vec)
     \<and> (\<forall>i < length x_vec.
           got H_fn (rounds (parallel2 x_vec) ! (i + 2)) = [H (G (F (x_vec ! i)))]
         \<and> called H_fn (rounds (serial2 x_vec) ! i) = [H (G (F (x_vec ! i)))])"
proof -
  from assms have ser: "length x_vec < 2 ^ 32" by simp
  note p = parallel2_run [OF assms] and s = serial2_run [OF ser]
  have "got H_fn (rounds (parallel2 x_vec) ! (i + 2)) = [H (G (F (x_vec ! i)))]"
    and "called H_fn (rounds (serial2 x_vec) ! i) = [H (G (F (x_vec ! i)))]"
    if "i < length x_vec" for i
    using that p s
    by (simp_all add: parallel2_round_events serial2_round_events input_at_def del: upt_Suc)
  with p s show ?thesis by simp
qed

theorem parallel2_agrees_with_serial2_witness:
  "length [''x_0'', ''x_1''] + 2 < (2::nat) ^ 32
   \<and> returns (parallel2 [''x_0'', ''x_1'']) \<and> returns (serial2 [''x_0'', ''x_1''])
   \<and> got H_fn (rounds (parallel2 [''x_0'', ''x_1'']) ! 3) = [''H(G(F(x_1)))'']
   \<and> called H_fn (rounds (serial2 [''x_0'', ''x_1'']) ! 1) = [''H(G(F(x_1)))'']"
proof -
  have b: "length [''x_0'', ''x_1''] + 2 < (2::nat) ^ 32" by simp
  note agree = parallel2_agrees_with_serial2 [OF b]
  from agree [THEN conjunct2, THEN conjunct2, THEN spec, of 1] agree show ?thesis
    by (simp add: F_def G_def H_def numeral_3_eq_3)
qed


text \<open>
  Claim C2. For an input vector of length \<open>N\<close>, the parallel loop of main2.cpp runs
  exactly \<open>N + 2\<close> rounds, and those of main3.cpp and main4.cpp exactly \<open>N + 1\<close>
  (whenever the 32-bit counter can reach that number).
\<close>

theorem rounds_executed:
  "(length x_vec + 2 < 2 ^ 32 \<longrightarrow>
      returns (parallel2 x_vec) \<and> length (rounds (parallel2 x_vec)) = length x_vec + 2)
   \<and> (length x_vec + 1 < 2 ^ 32 \<longrightarrow>
      returns (parallel3 x_vec) \<and> length (rounds (parallel3 x_vec)) = length x_vec + 1
      \<and> returns (parallel4 x_vec z_vec)
      \<and> length (rounds (parallel4 x_vec z_vec)) = length x_vec + 1)"
  using parallel2_run [of x_vec] parallel3_run [of x_vec] parallel4_run [of x_vec z_vec]
  by simp

theorem rounds_executed_witness:
  "length [''x_0'', ''x_1'', ''x_2''] + 2 < (2::nat) ^ 32
   \<and> returns (parallel2 [''x_0'', ''x_1'', ''x_2''])
   \<and> length (rounds (parallel2 [''x_0'', ''x_1'', ''x_2''])) = 5
   \<and> returns (parallel3 [''x_0'', ''x_1'', ''x_2''])
   \<and> length (rounds (parallel3 [''x_0'', ''x_1'', ''x_2''])) = 4
   \<and> returns (parallel4 [''x_0'', ''x_1'', ''x_2''] [''z_0'', ''z_1'', ''z_2''])
   \<and> length (rounds (parallel4 [''x_0'', ''x_1'', ''x_2''] [''z_0'', ''z_1'', ''z_2''])) = 4"
  using rounds_executed [of "[''x_0'', ''x_1'', ''x_2'']" "[''z_0'', ''z_1'', ''z_2'']"]
  by simp

text \<open>
  Claim C7. In every round \<open>r\<close> of a parallel run (of a vector the 32-bit counter can
  run through), the value taken from an input stream
  (and handed to the stage that consumes it) is the stream's element \<open>r\<close> when \<open>r\<close> is
  less than the stream's length, and \<^verbatim>\<open>no_data\<close> otherwise: \<open>x_i\<close> in the three
  programs, and \<open>z_i\<close> in main4.cpp.
\<close>

theorem external_inputs:
  assumes "length x_vec + 2 < 2 ^ 32"
  shows "(\<forall>r < length x_vec + 2.
            launched F_fn (rounds (parallel2 x_vec) ! r)
              = [if r < length x_vec then x_vec ! r else no_data])
     \<and> (\<forall>r < length x_vec + 1.
            launched F_fn (rounds (parallel3 x_vec) ! r)
              = [if r < length x_vec then x_vec ! r else no_data])
     \<and> (\<forall>r < length x_vec + 1.
            launched F_fn (rounds (parallel4 x_vec z_vec) ! r)
              = [if r < length x_vec then x_vec ! r else no_data]
          \<and> launched G_fn (rounds (parallel4 x_vec z_vec) ! r)
              = [if r < length z_vec then z_vec ! r else no_data])"
proof -
  from assms have b: "length x_vec + 1 < 2 ^ 32" by simp
  note p2 = parallel2_run [OF assms] and p3 = parallel3_run [OF b]
    and p4 = parallel4_run [OF b, of z_vec]
  have "\<forall>r < length x_vec + 2. launched F_fn (rounds (parallel2 x_vec) ! r)
      = [if r < length x_vec then x_vec ! r else no_data]"
    using p2 by (simp add: parallel2_round_events input_at_def del: upt_Suc)
  moreover have "\<forall>r < length x_vec + 1. launched F_fn (rounds (parallel3 x_vec) ! r)
      = [if r < length x_vec then x_vec ! r else no_data]"
    using p3 by (simp add: parallel3_round_events input_at_def del: upt_Suc)
  moreover have "\<forall>r < length x_vec + 1.
        launched F_fn (rounds (parallel4 x_vec z_vec) ! r)
          = [if r < length x_vec then x_vec ! r else no_data]
      \<and> launched G_fn (rounds (parallel4 x_vec z_vec) ! r)
          = [if r < length z_vec then z_vec ! r else no_data]"
    using p4 by (simp add: parallel4_round_events input_at_def del: upt_Suc)
  ultimately show ?thesis by blast
qed

theorem external_inputs_witness:
  "length [''x_0'', ''x_1''] + 2 < (2::nat) ^ 32
   \<and> launched F_fn (rounds (parallel2 [''x_0'', ''x_1'']) ! 1) = [''x_1'']
   \<and> launched F_fn (rounds (parallel2 [''x_0'', ''x_1'']) ! 2) = [''--'']
   \<and> launched G_fn (rounds (parallel4 [''x_0'', ''x_1''] [''z_0'']) ! 0) = [''z_0'']
   \<and> launched G_fn (rounds (parallel4 [''x_0'', ''x_1''] [''z_0'']) ! 1) = [''--'']"
proof -
  have b: "length [''x_0'', ''x_1''] + 2 < (2::nat) ^ 32" by simp
  note inputs = external_inputs [OF b, of "[''z_0'']"]
  from inputs [THEN conjunct1, THEN spec, of 1] inputs [THEN conjunct1, THEN spec, of 2]
    inputs [THEN conjunct2, THEN conjunct2, THEN spec, of 0]
    inputs [THEN conjunct2, THEN conjunct2, THEN spec, of 1]
  show ?thesis
    by (simp add: no_data_def)
qed

text \<open>
  Claim C8. In every round \<open>r\<close> of a parallel run (of a vector the 32-bit counter can
  run through), a stage that reads a buffer is launched with exactly the value read from
  it, and that value is the one assigned to the buffer in round \<open>r - 1\<close>, or \<^verbatim>\<open>no_data\<close>
  in round \<open>0\<close>.
\<close>

theorem buffers_delay_one_round:
  assumes "length x_vec + 2 < 2 ^ 32"
  shows "(\<forall>r < length x_vec + 2.
            launched G_fn (rounds (parallel2 x_vec) ! r) = reads F_buffer (rounds (parallel2 x_vec) ! r)
          \<and> reads F_buffer (rounds (parallel2 x_vec) ! r)
              = (if r = 0 then [no_data] else writes F_buffer (rounds (parallel2 x_vec) ! (r - 1)))
          \<and> launched H_fn (rounds (parallel2 x_vec) ! r) = reads G_buffer (rounds (parallel2 x_vec) ! r)
          \<and> reads G_buffer (rounds (parallel2 x_vec) ! r)
              = (if r = 0 then [no_data] else writes G_buffer (rounds (parallel2 x_vec) ! (r - 1)))
          \<and> length (launched G_fn (rounds (parallel2 x_vec) ! r)) = 1
          \<and> length (launched H_fn (rounds (parallel2 x_vec) ! r)) = 1)
     \<and> (\<forall>r < length x_vec + 1.
            launched G_fn (rounds (parallel3 x_vec) ! r)
              = (if r = 0 then [no_data] else writes F_buffer (rounds (parallel3 x_vec) ! (r - 1)))
          \<and> set (reads F_buffer (rounds (parallel3 x_vec) ! r))
              = set (launched G_fn (rounds (parallel3 x_vec) ! r))
          \<and> length (launched G_fn (rounds (parallel3 x_vec) ! r)) = 1)
     \<and> (\<forall>r < length x_vec + 1.
            launched H_fn (rounds (parallel4 x_vec z_vec) ! r)
              = reads F_G_sum_buffer (rounds (parallel4 x_vec z_vec) ! r)
          \<and> reads F_G_sum_buffer (rounds (parallel4 x_vec z_vec) ! r)
              = (if r = 0 then [no_data]
                 else writes F_G_sum_buffer (rounds (parallel4 x_vec z_vec) ! (r - 1)))
          \<and> length (launched H_fn (rounds (parallel4 x_vec z_vec) ! r)) = 1)"
proof -
  from assms have b: "length x_vec + 1 < 2 ^ 32" by simp
  note p2 = parallel2_run [OF assms] and p3 = parallel3_run [OF b]
    and p4 = parallel4_run [OF b, of z_vec]
  have two: "launched G_fn (rounds (parallel2 x_vec) ! r) = reads F_buffer (rounds (parallel2 x_vec) ! r)
      \<and> reads F_buffer (rounds (parallel2 x_vec) ! r)
          = (if r = 0 then [no_data] else writes F_buffer (rounds (parallel2 x_vec) ! (r - 1)))
      \<and> launched H_fn (rounds (parallel2 x_vec) ! r) = reads G_buffer (rounds (parallel2 x_vec) ! r)
      \<and> reads G_buffer (rounds (parallel2 x_vec) ! r)
          = (if r = 0 then [no_data] else writes G_buffer (rounds (parallel2 x_vec) ! (r - 1)))
      \<and> length (launched G_fn (rounds (parallel2 x_vec) ! r)) = 1
      \<and> length (launched H_fn (rounds (parallel2 x_vec) ! r)) = 1"
    if "r < length x_vec + 2" for r
    using that p2 by (cases r) (simp_all add: parallel2_round_events del: upt_Suc)
  have three: "launched G_fn (rounds (parallel3 x_vec) ! r)
          = (if r = 0 then [no_data] else writes F_buffer (rounds (parallel3 x_vec) ! (r - 1)))
      \<and> set (reads F_buffer (rounds (parallel3 x_vec) ! r))
          = set (launched G_fn (rounds (parallel3 x_vec) ! r))
      \<and> length (launched G_fn (rounds (parallel3 x_vec) ! r)) = 1"
    if "r < length x_vec + 1" for r
    using that p3 by (cases r) (simp_all add: parallel3_round_events del: upt_Suc)
  have four: "launched H_fn (rounds (parallel4 x_vec z_vec) ! r)
          = reads F_G_sum_buffer (rounds (parallel4 x_vec z_vec) ! r)
      \<and> reads F_G_sum_buffer (rounds (parallel4 x_vec z_vec) ! r)
          = (if r = 0 then [no_data]
             else writes F_G_sum_buffer (rounds (parallel4 x_vec z_vec) ! (r - 1)))
      \<and> length (launched H_fn (rounds (parallel4 x_vec z_vec) ! r)) = 1"
    if "r < length x_vec + 1" for r
    using that p4 by (cases r) (simp_all add: parallel4_round_events del: upt_Suc)
  from two three four show ?thesis by blast
qed

theorem buffers_delay_one_round_witness:
  "length [''x_0''] + 2 < (2::nat) ^ 32
   \<and> launched G_fn (rounds (parallel2 [''x_0'']) ! 0) = [''--'']
   \<and> launched G_fn (rounds (parallel2 [''x_0'']) ! 1) = writes F_buffer (rounds (parallel2 [''x_0'']) ! 0)
   \<and> launched H_fn (rounds (parallel2 [''x_0'']) ! 2) = writes G_buffer (rounds (parallel2 [''x_0'']) ! 1)
   \<and> launched G_fn (rounds (parallel3 [''x_0'']) ! 1) = writes F_buffer (rounds (parallel3 [''x_0'']) ! 0)"
proof -
  have b: "length [''x_0''] + 2 < (2::nat) ^ 32" by simp
  note delay = buffers_delay_one_round [OF b]
  from delay [THEN conjunct1, THEN spec, of 0] delay [THEN conjunct1, THEN spec, of 1]
    delay [THEN conjunct1, THEN spec, of 2]
    delay [THEN conjunct2, THEN conjunct1, THEN spec, of 1]
  show ?thesis
    by (simp add: no_data_def)
qed

text \<open>
  Claim C3, as stated, fails: the loops discard nothing. With the single input \<open>x_0\<close>,
  round \<open>0\<close> of main2.cpp joins the \<open>H\<close> future with the value \<open>H(--)\<close>, built from the
  sentinel alone, and prints it in its line like every other round.
\<close>

theorem first_rounds_are_printed:
  "got H_fn (rounds (parallel2 [''x_0'']) ! 0) = [''H(--)'']
   \<and> printed (rounds (parallel2 [''x_0'']) ! 0)
       = [''Step 0:  Thread 1: F(x_0)  Thread 2: G(--)  Thread 3: H(--)'']
   \<and> sentinel_only ''H(--)''"
proof -
  have b: "length [''x_0''] + 2 < (2::nat) ^ 32" by simp
  have "sentinel_only (H no_data)"
    by (intro sentinel_only.intros)
  then have "sentinel_only ''H(--)''"
    by (simp add: H_def no_data_def)
  with parallel2_run [OF b] show ?thesis
    by (simp add: parallel2_round_events input_at_def step_line_def to_string_def digits.simps
        digit_def F_def G_def H_def no_data_def)
qed

text \<open>
  Claim C3, amended. Every round prints its final-stage value, the first rounds too. In
  main2.cpp the \<open>H\<close> results of rounds \<open>0\<close> and \<open>1\<close> are \<open>H no_data\<close> and
  \<open>H (G no_data)\<close>, and in main3.cpp the sum of round \<open>0\<close> is
  \<open>sum_str no_data (G no_data)\<close>: values built from the sentinel alone. From then on the
  final-stage value of round \<open>i + 2\<close> (main2.cpp), \<open>i + 1\<close> (main3.cpp) is the one the
  serial expression gives for \<open>x_vec ! i\<close>.
\<close>

theorem fill_up_rounds:
  assumes "length x_vec + 2 < 2 ^ 32"
  shows "(\<forall>r < length x_vec + 2. \<exists>h line.
            got H_fn (rounds (parallel2 x_vec) ! r) = [h]
          \<and> printed (rounds (parallel2 x_vec) ! r) = [line @ ''  Thread 3: '' @ h])
     \<and> got H_fn (rounds (parallel2 x_vec) ! 0) = [H no_data]
     \<and> got H_fn (rounds (parallel2 x_vec) ! 1) = [H (G no_data)]
     \<and> sentinel_only (H no_data) \<and> sentinel_only (H (G no_data))
     \<and> (\<forall>i < length x_vec.
            got H_fn (rounds (parallel2 x_vec) ! (i + 2)) = [H (G (F (x_vec ! i)))])
     \<and> (\<forall>r < length x_vec + 1. \<exists>y line.
            summed (rounds (parallel3 x_vec) ! r) = [y]
          \<and> printed (rounds (parallel3 x_vec) ! r) = [line @ ''  Thread Main: '' @ y])
     \<and> summed (rounds (parallel3 x_vec) ! 0) = [sum_str no_data (G no_data)]
     \<and> sentinel_only (sum_str no_data (G no_data))
     \<and> (\<forall>i < length x_vec.
            summed (rounds (parallel3 x_vec) ! (i + 1))
              = [sum_str (F (x_vec ! i)) (G (F (x_vec ! i)))])"
proof -
  from assms have b: "length x_vec + 1 < 2 ^ 32" by simp
  note p2 = parallel2_run [OF assms] and p3 = parallel3_run [OF b]
  have printed2: "\<exists>h line. got H_fn (rounds (parallel2 x_vec) ! r) = [h]
      \<and> printed (rounds (parallel2 x_vec) ! r) = [line @ ''  Thread 3: '' @ h]"
    if "r < length x_vec + 2" for r
  proof -
    have "printed (rounds (parallel2 x_vec) ! r)
        = [(step_line r @ F (input_at x_vec r) @ ''  Thread 2: '' @ G (F_buffer_before x_vec r))
           @ ''  Thread 3: '' @ H (G_buffer_before x_vec r)]"
      using that p2 by (simp add: parallel2_round_events del: upt_Suc)
    moreover have "got H_fn (rounds (parallel2 x_vec) ! r) = [H (G_buffer_before x_vec r)]"
      using that p2 by (simp add: parallel2_round_events del: upt_Suc)
    ultimately show ?thesis by blast
  qed
  have printed3: "\<exists>y line. summed (rounds (parallel3 x_vec) ! r) = [y]
      \<and> printed (rounds (parallel3 x_vec) ! r) = [line @ ''  Thread Main: '' @ y]"
    if "r < length x_vec + 1" for r
  proof -
    have "printed (rounds (parallel3 x_vec) ! r)
        = [(step_line r @ F (input_at x_vec r) @ ''  Thread 2: '' @ G (F_buffer_before x_vec r))
           @ ''  Thread Main: '' @ sum_str (F_buffer_before x_vec r) (G (F_buffer_before x_vec r))]"
      using that p3 by (simp add: parallel3_round_events del: upt_Suc)
    moreover have "summed (rounds (parallel3 x_vec) ! r)
        = [sum_str (F_buffer_before x_vec r) (G (F_buffer_before x_vec r))]"
      using that p3 by (simp add: parallel3_round_summed del: upt_Suc)
    ultimately show ?thesis by blast
  qed
  have first2: "got H_fn (rounds (parallel2 x_vec) ! 0) = [H no_data]"
    "got H_fn (rounds (parallel2 x_vec) ! 1) = [H (G no_data)]"
    using p2 by (simp_all add: parallel2_round_events nth_append del: upt_Suc)
  have real2: "got H_fn (rounds (parallel2 x_vec) ! (i + 2)) = [H (G (F (x_vec ! i)))]"
    if "i < length x_vec" for i
    using that p2 by (simp add: parallel2_round_events input_at_def del: upt_Suc)
  have first3: "summed (rounds (parallel3 x_vec) ! 0) = [sum_str no_data (G no_data)]"
    using p3 by (simp add: parallel3_round_summed nth_append del: upt_Suc)
  have real3: "summed (rounds (parallel3 x_vec) ! (i + 1))
      = [sum_str (F (x_vec ! i)) (G (F (x_vec ! i)))]"
    if "i < length x_vec" for i
    using that p3 by (simp add: parallel3_round_summed input_at_def del: upt_Suc)
  have sentinels: "sentinel_only (H no_data)" "sentinel_only (H (G no_data))"
    "sentinel_only (sum_str no_data (G no_data))"
    by (intro sentinel_only.intros)+
  from printed2 printed3 first2 real2 first3 real3 sentinels show ?thesis
    by blast
qed


theorem fill_up_rounds_witness:
  "length [''x_0''] + 2 < (2::nat) ^ 32
   \<and> got H_fn (rounds (parallel2 [''x_0'']) ! 0) = [''H(--)'']
   \<and> got H_fn (rounds (parallel2 [''x_0'']) ! 1) = [''H(G(--))'']
   \<and> got H_fn (rounds (parallel2 [''x_0'']) ! 2) = [''H(G(F(x_0)))'']
   \<and> summed (rounds (parallel3 [''x_0'']) ! 0) = [''-- + G(--)'']
   \<and> summed (rounds (parallel3 [''x_0'']) ! 1) = [''F(x_0) + G(F(x_0))'']"
proof -
  have b: "length [''x_0''] + 2 < (2::nat) ^ 32" by simp
  note fill = fill_up_rounds [OF b]
  have first: "got H_fn (rounds (parallel2 [''x_0'']) ! 0) = [H no_data]"
    "got H_fn (rounds (parallel2 [''x_0'']) ! 1) = [H (G no_data)]"
    "summed (rounds (parallel3 [''x_0'']) ! 0) = [sum_str no_data (G no_data)]"
    using fill by blast+
  have real2: "\<forall>i < length [''x_0'']. got H_fn (rounds (parallel2 [''x_0'']) ! (i + 2))
      = [H (G (F ([''x_0''] ! i)))]"
    and real3: "\<forall>i < length [''x_0'']. summed (rounds (parallel3 [''x_0'']) ! (i + 1))
      = [sum_str (F ([''x_0''] ! i)) (G (F ([''x_0''] ! i)))]"
    using fill by blast+
  from real2 [THEN spec, of 0] real3 [THEN spec, of 0] first
  have "got H_fn (rounds (parallel2 [''x_0'']) ! 0) = [''H(--)'']
   \<and> got H_fn (rounds (parallel2 [''x_0'']) ! 1) = [''H(G(--))'']
   \<and> got H_fn (rounds (parallel2 [''x_0'']) ! 2) = [''H(G(F(x_0)))'']
   \<and> summed (rounds (parallel3 [''x_0'']) ! 0) = [''-- + G(--)'']
   \<and> summed (rounds (parallel3 [''x_0'']) ! 1) = [''F(x_0) + G(F(x_0))'']"
    by (simp add: F_def G_def H_def sum_str_def no_data_def numeral_2_eq_2)
  with b show ?thesis by blast
qed

text \<open>
  Claim C4, as stated, fails on main3.cpp: a round reads \<^verbatim>\<open>F_buffer\<close> twice, for
  \<^verbatim>\<open>async(G, F_buffer)\<close> and for \<^verbatim>\<open>sum(F_buffer, G_result)\<close>.
\<close>

theorem main3_reads_twice:
  "reads F_buffer (rounds (parallel3 [''x_0'']) ! 0) = [''--'', ''--'']
   \<and> reads F_buffer (rounds (parallel3 [''x_0'']) ! 1) = [''F(x_0)'', ''F(x_0)'']"
proof -
  have b: "length [''x_0''] + 1 < (2::nat) ^ 32" by simp
  from parallel3_run [OF b] show ?thesis
    by (simp add: parallel3_round_events input_at_def F_def no_data_def)
qed

text \<open>
  Claim C4, amended. In every round of a parallel run each buffer is assigned exactly
  once, after every task of the round has been launched and joined and after every read
  of a buffer; it is read once in main2.cpp and main4.cpp, and twice in main3.cpp.
\<close>

theorem buffer_accesses:
  assumes "length x_vec + 2 < 2 ^ 32"
  shows "(\<forall>r < length x_vec + 2.
            length (writes F_buffer (rounds (parallel2 x_vec) ! r)) = 1
          \<and> length (writes G_buffer (rounds (parallel2 x_vec) ! r)) = 1
          \<and> length (reads F_buffer (rounds (parallel2 x_vec) ! r)) = 1
          \<and> length (reads G_buffer (rounds (parallel2 x_vec) ! r)) = 1
          \<and> writes_come_last (rounds (parallel2 x_vec) ! r)
          \<and> (\<forall>f. length (got f (rounds (parallel2 x_vec) ! r))
                  = length (launched f (rounds (parallel2 x_vec) ! r))))
     \<and> (\<forall>r < length x_vec + 1.
            length (writes F_buffer (rounds (parallel3 x_vec) ! r)) = 1
          \<and> length (reads F_buffer (rounds (parallel3 x_vec) ! r)) = 2
          \<and> writes_come_last (rounds (parallel3 x_vec) ! r)
          \<and> (\<forall>f. length (got f (rounds (parallel3 x_vec) ! r))
                  = length (launched f (rounds (parallel3 x_vec) ! r))))
     \<and> (\<forall>r < length x_vec + 1.
            length (writes F_G_sum_buffer (rounds (parallel4 x_vec z_vec) ! r)) = 1
          \<and> length (reads F_G_sum_buffer (rounds (parallel4 x_vec z_vec) ! r)) = 1
          \<and> writes_come_last (rounds (parallel4 x_vec z_vec) ! r)
          \<and> (\<forall>f. length (got f (rounds (parallel4 x_vec z_vec) ! r))
                  = length (launched f (rounds (parallel4 x_vec z_vec) ! r))))"
proof -
  from assms have b: "length x_vec + 1 < 2 ^ 32" by simp
  note p2 = parallel2_run [OF assms] and p3 = parallel3_run [OF b]
    and p4 = parallel4_run [OF b, of z_vec]
  have "\<forall>r < length x_vec + 2.
        length (writes F_buffer (rounds (parallel2 x_vec) ! r)) = 1
      \<and> length (writes G_buffer (rounds (parallel2 x_vec) ! r)) = 1
      \<and> length (reads F_buffer (rounds (parallel2 x_vec) ! r)) = 1
      \<and> length (reads G_buffer (rounds (parallel2 x_vec) ! r)) = 1
      \<and> writes_come_last (rounds (parallel2 x_vec) ! r)
      \<and> (\<forall>f. length (got f (rounds (parallel2 x_vec) ! r))
              = length (launched f (rounds (parallel2 x_vec) ! r)))"
    using p2 by (simp add: parallel2_round_events round_order round_joins del: upt_Suc)
  moreover have "\<forall>r < length x_vec + 1.
        length (writes F_buffer (rounds (parallel3 x_vec) ! r)) = 1
      \<and> length (reads F_buffer (rounds (parallel3 x_vec) ! r)) = 2
      \<and> writes_come_last (rounds (parallel3 x_vec) ! r)
      \<and> (\<forall>f. length (got f (rounds (parallel3 x_vec) ! r))
              = length (launched f (rounds (parallel3 x_vec) ! r)))"
    using p3 by (simp add: parallel3_round_events round_order round_joins del: upt_Suc)
  moreover have "\<forall>r < length x_vec + 1.
        length (writes F_G_sum_buffer (rounds (parallel4 x_vec z_vec) ! r)) = 1
      \<and> length (reads F_G_sum_buffer (rounds (parallel4 x_vec z_vec) ! r)) = 1
      \<and> writes_come_last (rounds (parallel4 x_vec z_vec) ! r)
      \<and> (\<forall>f. length (got f (rounds (parallel4 x_vec z_vec) ! r))
              = length (launched f (rounds (parallel4 x_vec z_vec) ! r)))"
    using p4 by (simp add: parallel4_round_events round_order round_joins del: upt_Suc)
  ultimately show ?thesis by blast
qed

theorem buffer_accesses_witness:
  "length [''x_0''] + 2 < (2::nat) ^ 32
   \<and> length (writes F_buffer (rounds (parallel2 [''x_0'']) ! 2)) = 1
   \<and> length (reads G_buffer (rounds (parallel2 [''x_0'']) ! 2)) = 1
   \<and> writes_come_last (rounds (parallel2 [''x_0'']) ! 2)
   \<and> length (writes F_buffer (rounds (parallel3 [''x_0'']) ! 1)) = 1
   \<and> length (reads F_buffer (rounds (parallel3 [''x_0'']) ! 1)) = 2
   \<and> length (reads F_G_sum_buffer (rounds (parallel4 [''x_0''] [''z_0'']) ! 1)) = 1"
proof -
  have b: "length [''x_0''] + 2 < (2::nat) ^ 32" by simp
  note acc = buffer_accesses [OF b, of "[''z_0'']"]
  from acc [THEN conjunct1, THEN spec, of 2] acc [THEN conjunct2, THEN conjunct1, THEN spec, of 1]
    acc [THEN conjunct2, THEN conjunct2, THEN spec, of 1]
  show ?thesis by simp
qed

text \<open>
  Claim C5, as stated, fails when \<open>z_vec\<close> is the shorter stream. With two elements in
  \<open>x_vec\<close> and one in \<open>z_vec\<close> the parallel loop of main4.cpp runs three rounds and gives
  two \<open>H\<close> results, the second one from \<open>x_1\<close> and the sentinel, while the shortest
  stream has one element; the serial loop reads \<open>z_vec[1]\<close>, beyond the end of \<open>z_vec\<close>.
\<close>

theorem output_follows_x_vec:
  "length (rounds (parallel4 [''x_0'', ''x_1''] [''z_0''])) = 3
   \<and> got H_fn (rounds (parallel4 [''x_0'', ''x_1''] [''z_0'']) ! 1) = [''H(F(x_0) + G(z_0))'']
   \<and> got H_fn (rounds (parallel4 [''x_0'', ''x_1''] [''z_0'']) ! 2) = [''H(F(x_1) + G(--))'']
   \<and> min (length [''x_0'', ''x_1'']) (length [''z_0'']) = 1
   \<and> serial4 [''x_0'', ''x_1''] [''z_0''] = Some (Inl Out_of_bounds)"
proof -
  have b: "length [''x_0'', ''x_1''] + 1 < (2::nat) ^ 32" by simp
  have "serial4 [''x_0'', ''x_1''] [''z_0''] = Some (Inl Out_of_bounds)"
    by (rule serial4_out_of_bounds) simp_all
  with parallel4_run [OF b, of "[''z_0'']"] show ?thesis
    by (simp add: parallel4_round_events input_at_def F_def G_def H_def sum_str_def no_data_def
        numeral_2_eq_2)
qed

text \<open>
  Claim C5, amended. The parallel loop of main4.cpp returns without reading a vector out
  of bounds, whatever the two lengths: it runs one round more than \<open>x_vec\<close> has elements,
  and round \<open>i + 1\<close> gives the \<open>H\<close> result for \<open>x_vec ! i\<close> and for \<open>z_vec ! i\<close>, or
  for \<^verbatim>\<open>no_data\<close> in its place beyond the end of \<open>z_vec\<close>. The number of results is the
  length of \<open>x_vec\<close>.
\<close>

theorem parallel4_follows_x_vec:
  assumes "length x_vec + 1 < 2 ^ 32"
  shows "returns (parallel4 x_vec z_vec)
     \<and> length (rounds (parallel4 x_vec z_vec)) = length x_vec + 1
     \<and> (\<forall>i < length x_vec.
           got H_fn (rounds (parallel4 x_vec z_vec) ! (i + 1))
             = [H (sum_str (F (x_vec ! i)) (G (if i < length z_vec then z_vec ! i else no_data)))])"
proof -
  note p = parallel4_run [OF assms, of z_vec]
  have "got H_fn (rounds (parallel4 x_vec z_vec) ! (i + 1))
      = [H (sum_str (F (x_vec ! i)) (G (if i < length z_vec then z_vec ! i else no_data)))]"
    if "i < length x_vec" for i
    using that p by (simp add: parallel4_round_events input_at_def del: upt_Suc)
  with p show ?thesis by simp
qed

theorem parallel4_follows_x_vec_witness:
  "length [''x_0'', ''x_1''] + 1 < (2::nat) ^ 32
   \<and> returns (parallel4 [''x_0'', ''x_1''] [''z_0''])
   \<and> length (rounds (parallel4 [''x_0'', ''x_1''] [''z_0''])) = 3
   \<and> got H_fn (rounds (parallel4 [''x_0'', ''x_1''] [''z_0'']) ! 2) = [''H(F(x_1) + G(--))'']"
proof -
  have b: "length [''x_0'', ''x_1''] + 1 < (2::nat) ^ 32" by simp
  note follows = parallel4_follows_x_vec [OF b, of "[''z_0'']"]
  from follows [THEN conjunct2, THEN conjunct2, THEN spec, of 1] follows
  have "returns (parallel4 [''x_0'', ''x_1''] [''z_0''])
   \<and> length (rounds (parallel4 [''x_0'', ''x_1''] [''z_0''])) = 3
   \<and> got H_fn (rounds (parallel4 [''x_0'', ''x_1''] [''z_0'']) ! 2) = [''H(F(x_1) + G(--))'']"
    by (simp add: F_def G_def H_def sum_str_def no_data_def numeral_2_eq_2)
  with b show ?thesis by blast
qed

text \<open>
  Claim C6. With the two input streams \<open>x_0 \<dots> x_9\<close> and \<open>z_0 \<dots> z_9\<close> that
  \<^verbatim>\<open>main\<close> generates, the parallel loop of main4.cpp runs exactly 11 rounds, and round
  \<open>i + 1\<close> gives \<open>H(F(x_i) + G(z_i))\<close> for every \<open>i\<close> from 0 to 9, the values the serial
  loop computes.
\<close>

theorem diamond_scenario:
  "returns (parallel4 (gen_vec_string 10 ''x'') (gen_vec_string 10 ''z''))
   \<and> length (rounds (parallel4 (gen_vec_string 10 ''x'') (gen_vec_string 10 ''z''))) = 11
   \<and> map (got H_fn) (tl (rounds (parallel4 (gen_vec_string 10 ''x'') (gen_vec_string 10 ''z''))))
       = [[''H(F(x_0) + G(z_0))''], [''H(F(x_1) + G(z_1))''], [''H(F(x_2) + G(z_2))''],
          [''H(F(x_3) + G(z_3))''], [''H(F(x_4) + G(z_4))''], [''H(F(x_5) + G(z_5))''],
          [''H(F(x_6) + G(z_6))''], [''H(F(x_7) + G(z_7))''], [''H(F(x_8) + G(z_8))''],
          [''H(F(x_9) + G(z_9))'']]
   \<and> returns (serial4 (gen_vec_string 10 ''x'') (gen_vec_string 10 ''z''))
   \<and> map (called H_fn) (rounds (serial4 (gen_vec_string 10 ''x'') (gen_vec_string 10 ''z'')))
       = map (got H_fn) (tl (rounds (parallel4 (gen_vec_string 10 ''x'') (gen_vec_string 10 ''z''))))"
proof -
  let ?x = "gen_vec_string 10 ''x''" and ?z = "gen_vec_string 10 ''z''"
  have len: "length ?x = 10" "length ?z = 10"
    by (simp_all add: gen_vec_string_10)
  then have b: "length ?x + 1 < 2 ^ 32" "length ?x < 2 ^ 32" "length ?x \<le> length ?z"
    by simp_all
  note p = parallel4_run [OF b(1), of ?z] and s = serial4_run [OF b(2,3)]
  have par: "map (got H_fn) (tl (rounds (parallel4 ?x ?z)))
       = [[''H(F(x_0) + G(z_0))''], [''H(F(x_1) + G(z_1))''], [''H(F(x_2) + G(z_2))''],
          [''H(F(x_3) + G(z_3))''], [''H(F(x_4) + G(z_4))''], [''H(F(x_5) + G(z_5))''],
          [''H(F(x_6) + G(z_6))''], [''H(F(x_7) + G(z_7))''], [''H(F(x_8) + G(z_8))''],
          [''H(F(x_9) + G(z_9))'']]"
    unfolding p [THEN conjunct2] len
    by (simp add: upt_11 parallel4_round_events F_G_sum_buffer_before_if input_at_def
        gen_vec_string_10 F_def G_def H_def sum_str_def
        del: F_G_sum_buffer_before.simps)
  have ser: "map (called H_fn) (rounds (serial4 ?x ?z))
       = [[''H(F(x_0) + G(z_0))''], [''H(F(x_1) + G(z_1))''], [''H(F(x_2) + G(z_2))''],
          [''H(F(x_3) + G(z_3))''], [''H(F(x_4) + G(z_4))''], [''H(F(x_5) + G(z_5))''],
          [''H(F(x_6) + G(z_6))''], [''H(F(x_7) + G(z_7))''], [''H(F(x_8) + G(z_8))''],
          [''H(F(x_9) + G(z_9))'']]"
    unfolding s [THEN conjunct2] len
    by (simp add: upt_10 serial4_round_events gen_vec_string_10 F_def G_def H_def sum_str_def)
  from p s len par ser show ?thesis
    by simp
qed

end
